theory Spec2Isabelle
  imports Complex_Main
begin

section \<open>Python strings\<close>

text \<open>
  A Python \<open>str\<close> is a sequence of code points and \<open>len\<close> counts code points. The model
  uses \<^typ>\<open>string\<close> with one \<^typ>\<open>char\<close> per code point in the range 0..255 (Latin-1), which
  holds every literal of the sources (\<open>N\<degree>\<close> is \<open>N\<close> followed by code point 176).
  The character classes below are those of \<open>str.isspace\<close>, \<open>str.isdigit\<close> and \<open>str.upper\<close>
  on that range. Two letters, code points 181 and 255, have upper-case forms beyond 255;
  \<open>upper_char\<close> leaves them as they are.
\<close>

definition code_point :: "char \<Rightarrow> nat" where
  "code_point c = of_char c"

definition isspace_char :: "char \<Rightarrow> bool" where
  "isspace_char c = (let n = code_point c in
     (9 \<le> n \<and> n \<le> 13) \<or> (28 \<le> n \<and> n \<le> 32) \<or> n = 133 \<or> n = 160)"

definition isdigit_char :: "char \<Rightarrow> bool" where
  "isdigit_char c = (let n = code_point c in
     (48 \<le> n \<and> n \<le> 57) \<or> n = 178 \<or> n = 179 \<or> n = 185)"

text \<open>\<open>s.isdigit()\<close>: every character is a digit and there is at least one.\<close>

definition isdigit :: "string \<Rightarrow> bool" where
  "isdigit s = (s \<noteq> [] \<and> list_all isdigit_char s)"

text \<open>\<open>s.strip()\<close>: leading and trailing white space removed.\<close>

definition strip :: "string \<Rightarrow> string" where
  "strip s = rev (dropWhile isspace_char (rev (dropWhile isspace_char s)))"

text \<open>A string is trimmed when it neither starts nor ends with white space.\<close>

definition trimmed :: "string \<Rightarrow> bool" where
  "trimmed s = (s \<noteq> [] \<and> \<not> isspace_char (hd s) \<and> \<not> isspace_char (last s))"

definition upper_char :: "char \<Rightarrow> string" where
  "upper_char c = (let n = code_point c in
     if (97 \<le> n \<and> n \<le> 122) \<or> (224 \<le> n \<and> n \<le> 254 \<and> n \<noteq> 247) then [char_of (n - 32)]
     else if n = 223 then ''SS''
     else [c])"

definition upper :: "string \<Rightarrow> string" where
  "upper s = concat (map upper_char s)"

text \<open>\<open>sep.join(parts)\<close>.\<close>

fun join :: "string \<Rightarrow> string list \<Rightarrow> string" where
  "join sep [] = []"
| "join sep [p] = p"
| "join sep (p # q # ps) = p @ sep @ join sep (q # ps)"

text \<open>\<open>s.replace(a, b)\<close> for one-character \<open>a\<close> and \<open>b\<close>.\<close>

definition replace_char :: "char \<Rightarrow> char \<Rightarrow> string \<Rightarrow> string" where
  "replace_char a b s = map (\<lambda>c. if c = a then b else c) s"

text \<open>\<open>sub in s\<close> on strings.\<close>

fun startswith :: "string \<Rightarrow> string \<Rightarrow> bool" where
  "startswith s [] = True"
| "startswith [] (p # ps) = False"
| "startswith (c # cs) (p # ps) = (c = p \<and> startswith cs ps)"

fun str_in :: "string \<Rightarrow> string \<Rightarrow> bool" where
  "str_in sub [] = (sub = [])"
| "str_in sub (c # cs) = (startswith (c # cs) sub \<or> str_in sub cs)"

text \<open>\<open>str(n)\<close> for an integer: decimal digits, with a minus sign when negative.\<close>

function str_nat :: "nat \<Rightarrow> string" where
  "str_nat n = (if n < 10 then [char_of (48 + n)]
                else str_nat (n div 10) @ [char_of (48 + n mod 10)])"
  by pat_completeness auto
termination
  by (relation "measure id") auto

declare str_nat.simps [simp del]

definition str_int :: "int \<Rightarrow> string" where
  "str_int i = (if i < 0 then CHR ''-'' # str_nat (nat (- i)) else str_nat (nat i))"

abbreviation LF :: char where "LF \<equiv> CHR 0x0A"
abbreviation CR :: char where "CR \<equiv> CHR 0x0D"

section \<open>Errors and decoded JSON\<close>

text \<open>
  Every \<open>raise\<close> of the sources is a value \<open>Inl e\<close>. \<open>AttributeError\<close> is what Python raises
  when \<open>.strip()\<close> is called on a value that is no string.
\<close>

datatype error = ValueError string | CodartAPIError string | AttributeError

text \<open>
  A decoded JSON value. An object is an association list read through \<open>map_of\<close>
  (the first binding of a key is the dictionary's entry). Numbers are integers.
\<close>

datatype json =
    JNull
  | JBool bool
  | JNum int
  | JStr string
  | JArr "json list"
  | JObj "(string \<times> json) list"

type_synonym dict = "(string \<times> json) list"

text \<open>Python truthiness, as used by \<open>or\<close>, \<open>not\<close> and \<open>if\<close>.\<close>

fun truthy :: "json \<Rightarrow> bool" where
  "truthy JNull = False"
| "truthy (JBool b) = b"
| "truthy (JNum n) = (n \<noteq> 0)"
| "truthy (JStr s) = (s \<noteq> [])"
| "truthy (JArr xs) = (xs \<noteq> [])"
| "truthy (JObj kvs) = (kvs \<noteq> [])"

definition py_or :: "json \<Rightarrow> json \<Rightarrow> json" where
  "py_or a b = (if truthy a then a else b)"

text \<open>\<open>d.get(k)\<close>: \<open>None\<close> for a missing key.\<close>

definition dict_get :: "dict \<Rightarrow> string \<Rightarrow> json" where
  "dict_get d k = (case map_of d k of None \<Rightarrow> JNull | Some v \<Rightarrow> v)"

section \<open>utils.py\<close>

definition prohibidos :: string where
  "prohibidos = ''<>:'' @ [CHR 0x22] @ ''/'' @ [CHR 0x5C] @ ''|?*''"

definition safe_filename_pretty :: "string \<Rightarrow> string" where
  "safe_filename_pretty texto =
     (let limpio = map (\<lambda>c. if c \<in> set prohibidos then CHR ''_'' else c) texto
      in strip (replace_char CR (CHR '' '') (replace_char LF (CHR '' '') limpio)))"

text \<open>
  The sanitizer as the specification words it, character by character: a forbidden
  character becomes an underscore, a line break becomes a space, anything else stays.
\<close>

definition spec_clean_char :: "char \<Rightarrow> char" where
  "spec_clean_char c =
     (if c = CHR ''<'' \<or> c = CHR ''>'' \<or> c = CHR '':'' \<or> c = CHR 0x22 \<or> c = CHR ''/''
         \<or> c = CHR 0x5C \<or> c = CHR ''|'' \<or> c = CHR ''?'' \<or> c = CHR ''*'' then CHR ''_''
      else if c = LF \<or> c = CR then CHR '' ''
      else c)"

section \<open>integraciones/codart.py: validators and name assembly\<close>

definition msg_dni :: string where
  "msg_dni = ''DNI inv'' @ [CHR 0xE1] @ ''lido. Debe tener 8 d'' @ [CHR 0xED] @ ''gitos.''"

definition msg_ruc :: string where
  "msg_ruc = ''RUC inv'' @ [CHR 0xE1] @ ''lido. Debe tener 11 d'' @ [CHR 0xED] @ ''gitos.''"

definition validar_dni :: "string \<Rightarrow> error + string" where
  "validar_dni dni =
     (let d = strip dni
      in if \<not> (isdigit d \<and> length d = 8) then Inl (ValueError msg_dni) else Inr d)"

definition validar_ruc :: "string \<Rightarrow> error + string" where
  "validar_ruc ruc =
     (let r = strip ruc
      in if \<not> (isdigit r \<and> length r = 11) then Inl (ValueError msg_ruc) else Inr r)"


text \<open>
  \<open>(res.get(k) or "").strip()\<close>: a missing key, \<open>None\<close> and every other falsy value give the
  empty string; a string is stripped; any other truthy value has no \<open>strip\<close>.
\<close>

definition get_stripped :: "dict \<Rightarrow> string \<Rightarrow> error + string" where
  "get_stripped res k =
     (case py_or (dict_get res k) (JStr []) of
        JStr s \<Rightarrow> Inr (strip s)
      | _ \<Rightarrow> Inl AttributeError)"

definition dni_a_nombre_completo :: "dict \<Rightarrow> error + string" where
  "dni_a_nombre_completo res =
     (case get_stripped res ''first_name'' of Inl e \<Rightarrow> Inl e | Inr nombres \<Rightarrow>
      case get_stripped res ''first_last_name'' of Inl e \<Rightarrow> Inl e | Inr ape1 \<Rightarrow>
      case get_stripped res ''second_last_name'' of Inl e \<Rightarrow> Inl e | Inr ape2 \<Rightarrow>
      if \<not> (nombres \<noteq> [] \<or> ape1 \<noteq> [] \<or> ape2 \<noteq> []) then
        (case get_stripped res ''full_name'' of Inl e \<Rightarrow> Inl e | Inr full \<Rightarrow> Inr full)
      else
        Inr (strip (upper (join '' '' (filter (\<lambda>p. p \<noteq> []) [nombres, ape1, ape2])))))"

text \<open>A field that holds text: a string, or nothing (absent or \<open>null\<close>).\<close>

fun is_text :: "json \<Rightarrow> bool" where
  "is_text (JStr s) = True"
| "is_text JNull = True"
| "is_text _ = False"

fun text_of :: "json \<Rightarrow> string" where
  "text_of (JStr s) = s"
| "text_of _ = []"

section \<open>integraciones/codart.py: the HTTP client\<close>

text \<open>
  The outside world of the client: the configured token (Streamlit secret, then the
  environment variable), the remote server, the log of the requests issued so far
  (oldest first), the clock in seconds, and the two caches of \<open>st.cache_data\<close>.
  The server answers a request knowing the requests before it, so its answers may
  change over time; \<open>Inl\<close> is a transport failure (\<open>requests\<close> raises, for example on the
  25 second timeout). The fixed headers sent with every attempt are not modelled.
  \<open>py_str\<close> is Python's \<open>str()\<close> of a decoded JSON value that is no string.
\<close>

datatype http_method = GET | POST

record request =
  meth :: http_method
  url :: string
  params :: "(string \<times> string) list option"
  json_body :: "(string \<times> string) list option"

text \<open>
  \<open>resp_text\<close> is \<open>resp.text\<close>; \<open>resp_json\<close> is what \<open>resp.json()\<close> returns, \<open>None\<close> when it
  raises because the body is not JSON.
\<close>

record response =
  status_code :: int
  resp_text :: string
  resp_json :: "json option"

datatype transport_error = RequestException

record world =
  secret_token :: "string option"
  env_token :: "string option"
  server :: "request list \<Rightarrow> request \<Rightarrow> transport_error + response"
  sent :: "request list"
  now :: nat
  cache_dni :: "(string \<times> json \<times> nat) list"
  cache_ruc :: "(string \<times> json \<times> nat) list"
  py_str :: "json \<Rightarrow> string"

datatype failure = Raised error | Transport transport_error

definition BASE_URL :: string where
  "BASE_URL = ''https://api.codart.cgrt.net/api/v1/consultas''"

text \<open>
  The arrow (code point 8594) of the message lies outside the range of the model and is
  written \<open>->\<close>; no code reads this message.
\<close>

definition msg_token :: string where
  "msg_token = ''Falta CODART_TOKEN. Config'' @ [CHR 0xFA]
     @ ''ralo en Streamlit Cloud: Settings -> Secrets.''"

definition get_token :: "world \<Rightarrow> error + string" where
  "get_token w =
     (let token = (case secret_token w of Some t \<Rightarrow> if t \<noteq> [] then Some t else env_token w
                   | None \<Rightarrow> env_token w)
      in case token of
           None \<Rightarrow> Inl (CodartAPIError msg_token)
         | Some t \<Rightarrow> if t = [] then Inl (CodartAPIError msg_token) else Inr (strip t))"

text \<open>One outbound request: it is logged, and the server answers it.\<close>

definition send :: "request \<Rightarrow> world \<Rightarrow> (transport_error + response) \<times> world" where
  "send rq w = (server w (sent w) rq, w\<lparr>sent := sent w @ [rq]\<rparr>)"

definition fmt :: "world \<Rightarrow> json \<Rightarrow> string" where
  "fmt w j = (case j of JStr s \<Rightarrow> s | _ \<Rightarrow> py_str w j)"

definition http_msg :: "response \<Rightarrow> string" where
  "http_msg resp = ''HTTP '' @ str_int (status_code resp) @ '': '' @ take 300 (resp_text resp)"

definition parse :: "world \<Rightarrow> response \<Rightarrow> failure + dict" where
  "parse w resp =
     (case resp_json resp of
        None \<Rightarrow> Inl (Raised (CodartAPIError (http_msg resp)))
      | Some (JObj data) \<Rightarrow>
          if dict_get data ''success'' \<noteq> JBool True then
            (let msg = py_or (py_or (dict_get data ''message'') (dict_get data ''error''))
                             (JStr ''success=false'')
             in Inl (Raised (CodartAPIError
                  (''CODART respondi'' @ [CHR 0xF3] @ '' error: '' @ fmt w msg))))
          else Inr data
      | Some _ \<Rightarrow> Inl (Raised (CodartAPIError ''Respuesta inesperada (no es dict).'')))"

definition waf_msg :: "response \<Rightarrow> response \<Rightarrow> string" where
  "waf_msg resp resp2 =
     ''Bloqueado por servidor/WAF. GET='' @ str_int (status_code resp)
       @ '' POST='' @ str_int (status_code resp2) @ ''. ''
       @ ''GET body: '' @ take 200 (resp_text resp)"

definition get_json ::
  "string \<Rightarrow> (string \<times> string) list option \<Rightarrow> world \<Rightarrow> (failure + dict) \<times> world" where
  "get_json u ps w =
     (case get_token w of
        Inl e \<Rightarrow> (Inl (Raised e), w)
      | Inr tok \<Rightarrow>
     (case send \<lparr>meth = GET, url = u, params = ps, json_body = None\<rparr> w of
        (Inl t, w1) \<Rightarrow> (Inl (Transport t), w1)
      | (Inr resp, w1) \<Rightarrow>
     if status_code resp = 406 \<or> status_code resp = 415 \<or> status_code resp = 403 then
       (case send \<lparr>meth = POST, url = u, params = None,
                   json_body = Some (case ps of None \<Rightarrow> [] | Some p \<Rightarrow> p)\<rparr> w1 of
          (Inl t, w2) \<Rightarrow> (Inl (Transport t), w2)
        | (Inr resp2, w2) \<Rightarrow>
       if status_code resp2 < 400 then (parse w2 resp2, w2)
       else
       (case send \<lparr>meth = GET, url = u, params = None, json_body = None\<rparr> w2 of
          (Inl t, w3) \<Rightarrow> (Inl (Transport t), w3)
        | (Inr resp3, w3) \<Rightarrow>
       if status_code resp3 < 400 then (parse w3 resp3, w3)
       else (Inl (Raised (CodartAPIError (waf_msg resp resp2))), w3)))
     else if status_code resp \<ge> 400 then (Inl (Raised (CodartAPIError (http_msg resp))), w1)
     else (parse w1 resp, w1)))"

text \<open>\<open>data.get("result", {}) or {}\<close>.\<close>

definition result_of :: "dict \<Rightarrow> json" where
  "result_of data =
     py_or (case map_of data ''result'' of None \<Rightarrow> JObj [] | Some v \<Rightarrow> v) (JObj [])"

text \<open>
  The shared shape of \<open>consultar_dni\<close> and \<open>consultar_ruc\<close> after validation: the primary
  route, and the secondary route when the error text holds \<open>HTTP 404\<close> or \<open>HTTP 406\<close>.
\<close>

definition con_fallback ::
  "string \<Rightarrow> string \<Rightarrow> (string \<times> string) list \<Rightarrow> world \<Rightarrow> (failure + json) \<times> world" where
  "con_fallback url_a url_b params_b w =
     (case get_json url_a None w of
        (Inr data, w1) \<Rightarrow> (Inr (result_of data), w1)
      | (Inl (Raised (CodartAPIError msg)), w1) \<Rightarrow>
          if str_in ''HTTP 404'' msg \<or> str_in ''HTTP 406'' msg then
            (case get_json url_b (Some params_b) w1 of
               (Inr data, w2) \<Rightarrow> (Inr (result_of data), w2)
             | (Inl e, w2) \<Rightarrow> (Inl e, w2))
          else (Inl (Raised (CodartAPIError msg)), w1)
      | (Inl e, w1) \<Rightarrow> (Inl e, w1))"

text \<open>The bodies of the two lookups, as written under the cache decorator.\<close>

definition consultar_dni_body :: "string \<Rightarrow> world \<Rightarrow> (failure + json) \<times> world" where
  "consultar_dni_body dni w =
     (case validar_dni dni of
        Inl e \<Rightarrow> (Inl (Raised e), w)
      | Inr dni_ok \<Rightarrow>
          con_fallback (BASE_URL @ ''/reniec/dni/'' @ dni_ok) (BASE_URL @ ''/reniec/dni/dni'')
            [(''dni'', dni_ok)] w)"

definition consultar_ruc_body :: "string \<Rightarrow> world \<Rightarrow> (failure + json) \<times> world" where
  "consultar_ruc_body ruc w =
     (case validar_ruc ruc of
        Inl e \<Rightarrow> (Inl (Raised e), w)
      | Inr ruc_ok \<Rightarrow>
          con_fallback (BASE_URL @ ''/sunat/ruc/'' @ ruc_ok) (BASE_URL @ ''/sunat/ruc/ruc'')
            [(''ruc'', ruc_ok)] w)"

text \<open>
  \<open>@st.cache_data(ttl=60 * 60 * 24)\<close>: a cache per function, keyed by the argument as
  passed. A stored value is returned while less than \<open>ttl\<close> seconds have passed since it
  was stored; otherwise the body runs, and its value is stored when it returns. A call
  that raises stores nothing.
\<close>

definition ttl :: nat where
  "ttl = 60 * 60 * 24"

definition cache_lookup :: "(string \<times> json \<times> nat) list \<Rightarrow> nat \<Rightarrow> string \<Rightarrow> json option" where
  "cache_lookup c t k =
     (case map_of c k of
        Some (v, t0) \<Rightarrow> if t < t0 + ttl then Some v else None
      | None \<Rightarrow> None)"

definition consultar_dni :: "string \<Rightarrow> world \<Rightarrow> (failure + json) \<times> world" where
  "consultar_dni dni w =
     (case cache_lookup (cache_dni w) (now w) dni of
        Some v \<Rightarrow> (Inr v, w)
      | None \<Rightarrow>
          (case consultar_dni_body dni w of
             (Inr v, w1) \<Rightarrow> (Inr v, w1\<lparr>cache_dni := (dni, v, now w1) # cache_dni w1\<rparr>)
           | (Inl e, w1) \<Rightarrow> (Inl e, w1)))"

definition consultar_ruc :: "string \<Rightarrow> world \<Rightarrow> (failure + json) \<times> world" where
  "consultar_ruc ruc w =
     (case cache_lookup (cache_ruc w) (now w) ruc of
        Some v \<Rightarrow> (Inr v, w)
      | None \<Rightarrow>
          (case consultar_ruc_body ruc w of
             (Inr v, w1) \<Rightarrow> (Inr v, w1\<lparr>cache_ruc := (ruc, v, now w1) # cache_ruc w1\<rparr>)
           | (Inl e, w1) \<Rightarrow> (Inl e, w1)))"

section \<open>comercio/app_permisos.py: coordinates\<close>

text \<open>
  A Python \<open>float\<close>: a real number, an infinity or a NaN. The builtin \<open>float(txt)\<close> is a
  parameter of the validator: \<open>None\<close> when it raises, the parsed value otherwise.
\<close>

datatype pyfloat = Finite real | PosInf | NegInf | NaN

fun float_le :: "pyfloat \<Rightarrow> pyfloat \<Rightarrow> bool" where
  "float_le NaN y = False"
| "float_le x NaN = False"
| "float_le NegInf y = True"
| "float_le x PosInf = True"
| "float_le (Finite a) (Finite b) = (a \<le> b)"
| "float_le x y = False"

text \<open>\<open>raw.split(",", 1)\<close> when \<open>raw\<close> holds a comma: the text before the first comma and the text after it.\<close>

definition split_comma :: "string \<Rightarrow> string \<times> string" where
  "split_comma raw =
     (takeWhile (\<lambda>c. c \<noteq> CHR '','') raw, tl (dropWhile (\<lambda>c. c \<noteq> CHR '','') raw))"

definition coordenadas_validas :: "(string \<Rightarrow> pyfloat option) \<Rightarrow> string \<Rightarrow> bool" where
  "coordenadas_validas float val =
     (let raw = strip val in
      if raw = [] \<or> \<not> str_in '','' raw then False
      else
        (let (lat_txt, lon_txt) = (case split_comma raw of (a, b) \<Rightarrow> (strip a, strip b)) in
         case float lat_txt of
           None \<Rightarrow> False
         | Some lat \<Rightarrow>
             (case float lon_txt of
                None \<Rightarrow> False
              | Some lon \<Rightarrow>
                  float_le (Finite (- 90)) lat \<and> float_le lat (Finite 90)
                  \<and> float_le (Finite (- 180)) lon \<and> float_le lon (Finite 180))))"

section \<open>comercio/sheets_comercio.py\<close>

text \<open>
  The spreadsheet maps a tab title to the grid of cell values that
  \<open>ws.get_all_values()\<close> returns for it: a list of rows, the header first, all rows of one
  length (gspread pads them). A cell holds a string.
\<close>

type_synonym grid = "string list list"
type_synonym store = "string \<Rightarrow> grid option"







subsection \<open>The worksheet\<close>

definition get_all_values :: "store \<Rightarrow> string \<Rightarrow> grid" where
  "get_all_values st name = (case st name of None \<Rightarrow> [] | Some g \<Rightarrow> g)"

text \<open>
  \<open>_get_worksheet\<close>: the tab is created when it is missing, and the header row is written
  when the tab holds no value. (\<open>ws.update("A1", values)\<close> is only ever called on a tab
  without values, which then holds exactly \<open>values\<close>.)
\<close>

definition get_worksheet :: "string \<Rightarrow> string list \<Rightarrow> store \<Rightarrow> store" where
  "get_worksheet sheet_name columnas st =
     (let st1 = (case st sheet_name of None \<Rightarrow> st(sheet_name \<mapsto> []) | Some g \<Rightarrow> st) in
      if get_all_values st1 sheet_name = [] then st1(sheet_name \<mapsto> [columnas]) else st1)"

subsection \<open>Data frames\<close>

text \<open>
  A \<open>pandas.DataFrame\<close> of strings: the column labels, and the rows, each aligned with the
  labels. \<open>cell\<close> reads a row at a label.
\<close>

record dataframe =
  columns :: "string list"
  rows :: "string list list"

definition index_of :: "string list \<Rightarrow> string \<Rightarrow> nat" where
  "index_of cols c = length (takeWhile (\<lambda>x. x \<noteq> c) cols)"

definition cell :: "string list \<Rightarrow> string list \<Rightarrow> string \<Rightarrow> string" where
  "cell cols row c = (let i = index_of cols c in if i < length row then row ! i else [])"

text \<open>\<open>for col in columnas: if col not in df.columns: df[col] = ""\<close>.\<close>

definition ensure_columns :: "string list \<Rightarrow> dataframe \<Rightarrow> dataframe" where
  "ensure_columns columnas df =
     foldl (\<lambda>d col. if col \<notin> set (columns d)
                     then d\<lparr>columns := columns d @ [col], rows := map (\<lambda>r. r @ [[]]) (rows d)\<rparr>
                     else d) df columnas"

text \<open>\<open>df[columnas]\<close>.\<close>

definition select_columns :: "string list \<Rightarrow> dataframe \<Rightarrow> dataframe" where
  "select_columns columnas df =
     \<lparr>columns = columnas, rows = map (\<lambda>r. map (cell (columns df) r) columnas) (rows df)\<rparr>"


text \<open>\<open>_escribir_df\<close>: the tab is cleared and holds the header and the rows of the frame.\<close>

definition escribir_df :: "string \<Rightarrow> string list \<Rightarrow> dataframe \<Rightarrow> store \<Rightarrow> store" where
  "escribir_df sheet_name columnas df st =
     (let st1 = get_worksheet sheet_name columnas st;
          df1 = select_columns columnas (ensure_columns columnas df);
          values = columns df1 # rows df1
      in st1(sheet_name \<mapsto> values))"




subsection \<open>Evaluaciones\<close>





subsection \<open>Autorizaciones\<close>



subsection \<open>Documentos simples\<close>



text \<open>
  A tab in the state that every write of this module leaves: the declared header, and
  data rows as wide as the header.
\<close>

definition wf_tab :: "string list \<Rightarrow> grid \<Rightarrow> bool" where
  "wf_tab columnas g =
     (case g of [] \<Rightarrow> False
      | header # filas \<Rightarrow> header = columnas \<and> list_all (\<lambda>r. length r = length columnas) filas)"



section \<open>Example worlds and tabs\<close>

text \<open>
  Concrete servers on which the lookups are run below. \<open>ok_response\<close> is a 200 answer
  with a success envelope. \<open>world_of srv\<close> has a token, an empty log and empty caches.
\<close>

definition ok_response :: response where
  "ok_response =
     \<lparr>status_code = 200, resp_text = ''{...}'',
      resp_json = Some (JObj [(''success'', JBool True),
                              (''result'', JObj [(''first_name'', JStr ''ANA'')])])\<rparr>"

definition status_response :: "int \<Rightarrow> string \<Rightarrow> response" where
  "status_response code body = \<lparr>status_code = code, resp_text = body, resp_json = None\<rparr>"

definition world_of :: "(request list \<Rightarrow> request \<Rightarrow> transport_error + response) \<Rightarrow> world" where
  "world_of srv =
     \<lparr>secret_token = Some ''token'', env_token = None, server = srv, sent = [], now = 0,
      cache_dni = [], cache_ruc = [], py_str = (\<lambda>j. ''?'')\<rparr>"

definition url_dni_a :: string where
  "url_dni_a = BASE_URL @ ''/reniec/dni/12345678''"

text \<open>The primary route answers every request with the given status; any other route answers 200.\<close>

definition primary_fails :: "int \<Rightarrow> request list \<Rightarrow> request \<Rightarrow> transport_error + response" where
  "primary_fails code hist rq =
     (if url rq = url_dni_a then Inr (status_response code []) else Inr ok_response)"

text \<open>A server that rejects the first GET with 406, a POST with 403 and any later GET with 500.\<close>

definition waf_server :: "request list \<Rightarrow> request \<Rightarrow> transport_error + response" where
  "waf_server hist rq =
     (if hist = [] then Inr (status_response 406 ''first'')
      else if meth rq = POST then Inr (status_response 403 ''second'')
      else Inr (status_response 500 ''third''))"

text \<open>A stand-in for \<open>float\<close> that parses four literals and raises on anything else.\<close>

definition float_sample :: "string \<Rightarrow> pyfloat option" where
  "float_sample txt =
     (if txt = ''-12.05'' then Some (Finite (- 12.05))
      else if txt = ''-77.03'' then Some (Finite (- 77.03))
      else if txt = ''91'' then Some (Finite 91)
      else if txt = ''0'' then Some (Finite 0)
      else None)"



text \<open>The number of requests a step has added to the log, within bounds.\<close>

definition grows :: "world \<Rightarrow> world \<Rightarrow> nat \<Rightarrow> nat \<Rightarrow> bool" where
  "grows w w' lo hi = (\<exists>rs. w' = w\<lparr>sent := sent w @ rs\<rparr> \<and> lo \<le> length rs \<and> length rs \<le> hi)"

section \<open>Facts about the string operations\<close>

lemma strip_Nil [simp]: "strip [] = []"
  by (simp add: strip_def)

lemma strip_hd: "strip s \<noteq> [] \<Longrightarrow> \<not> isspace_char (hd (strip s))"
proof -
  assume ne: "strip s \<noteq> []"
  let ?t = "dropWhile isspace_char s"
  let ?u = "dropWhile isspace_char (rev ?t)"
  have u: "?u \<noteq> []" using ne by (simp add: strip_def)
  have t: "?t \<noteq> []"
  proof
    assume e: "?t = []"
    show False using u unfolding e by simp
  qed
  have "\<not> isspace_char (hd ?t)" using t by (rule hd_dropWhile)
  moreover have "\<not> isspace_char (last (rev ?u))"
    using u hd_dropWhile [of isspace_char "rev ?t"] by (simp add: last_rev)
  moreover have "?t = rev (takeWhile isspace_char (rev ?t) @ ?u)"
    by simp
  then have "?t = rev ?u @ rev (takeWhile isspace_char (rev ?t))"
    by (simp only: rev_append)
  then have "hd ?t = hd (rev ?u)" using u
    by (metis hd_append2 rev_is_Nil_conv)
  ultimately show ?thesis by (simp add: strip_def)
qed

lemma strip_last: "strip s \<noteq> [] \<Longrightarrow> \<not> isspace_char (last (strip s))"
proof -
  assume ne: "strip s \<noteq> []"
  let ?u = "dropWhile isspace_char (rev (dropWhile isspace_char s))"
  have u: "?u \<noteq> []" using ne by (simp add: strip_def)
  then have "\<not> isspace_char (hd ?u)" by (rule hd_dropWhile)
  then show ?thesis using u by (simp add: strip_def last_rev)
qed

lemma strip_id:
  assumes "s \<noteq> []" and "\<not> isspace_char (hd s)" and "\<not> isspace_char (last s)"
  shows "strip s = s"
proof -
  have a: "dropWhile isspace_char s = s"
    using assms(1,2) by (cases s) auto
  have b: "dropWhile isspace_char (rev s) = rev s"
    using assms(1,3) by (cases "rev s") (auto simp: hd_rev)
  show ?thesis by (simp add: strip_def a b)
qed

lemma code_point_char_of: "code_point (char_of n) = n mod 256"
  by (simp add: code_point_def)

lemma upper_char_ne: "upper_char c \<noteq> []"
  by (simp add: upper_char_def Let_def)

lemma upper_char_nospace:
  assumes "\<not> isspace_char c" and "x \<in> set (upper_char c)"
  shows "\<not> isspace_char x"
proof -
  let ?n = "code_point c"
  consider (low) "(97 \<le> ?n \<and> ?n \<le> 122) \<or> (224 \<le> ?n \<and> ?n \<le> 254 \<and> ?n \<noteq> 247)"
    | (ss) "\<not> ((97 \<le> ?n \<and> ?n \<le> 122) \<or> (224 \<le> ?n \<and> ?n \<le> 254 \<and> ?n \<noteq> 247))" "?n = 223"
    | (same) "\<not> ((97 \<le> ?n \<and> ?n \<le> 122) \<or> (224 \<le> ?n \<and> ?n \<le> 254 \<and> ?n \<noteq> 247))" "?n \<noteq> 223"
    by blast
  then show ?thesis
  proof cases
    case low
    then have x: "x = char_of (?n - 32)"
      using assms(2) by (simp add: upper_char_def Let_def)
    have "code_point x = ?n - 32"
      using low unfolding x code_point_char_of by auto
    then show ?thesis using low by (auto simp: isspace_char_def Let_def)
  next
    case ss
    then have "x = CHR ''S''"
      using assms(2) by (auto simp: upper_char_def Let_def)
    then show ?thesis by (simp add: isspace_char_def code_point_def)
  next
    case same
    then have "x = c"
      using assms(2) by (auto simp: upper_char_def Let_def)
    then show ?thesis using assms(1) by simp
  qed
qed

lemma upper_Nil [simp]: "upper [] = []"
  by (simp add: upper_def)

lemma upper_Cons: "upper (c # cs) = upper_char c @ upper cs"
  by (simp add: upper_def)

lemma upper_append: "upper (xs @ ys) = upper xs @ upper ys"
  by (simp add: upper_def)

lemma upper_ne: "s \<noteq> [] \<Longrightarrow> upper s \<noteq> []"
  by (cases s) (simp_all add: upper_Cons upper_char_ne)

lemma upper_hd: "s \<noteq> [] \<Longrightarrow> \<not> isspace_char (hd s) \<Longrightarrow> \<not> isspace_char (hd (upper s))"
proof -
  assume ne: "s \<noteq> []" and h: "\<not> isspace_char (hd s)"
  then obtain c cs where s: "s = c # cs" by (cases s) auto
  have "hd (upper s) = hd (upper_char c)"
    by (simp add: s upper_Cons upper_char_ne)
  moreover have "hd (upper_char c) \<in> set (upper_char c)"
    by (simp add: upper_char_ne)
  ultimately show ?thesis
    using upper_char_nospace [of c] h s by simp
qed

lemma upper_last: "s \<noteq> [] \<Longrightarrow> \<not> isspace_char (last s) \<Longrightarrow> \<not> isspace_char (last (upper s))"
proof -
  assume ne: "s \<noteq> []" and h: "\<not> isspace_char (last s)"
  then obtain cs c where s: "s = cs @ [c]" by (cases s rule: rev_cases) auto
  have "last (upper s) = last (upper_char c)"
    by (simp add: s upper_append upper_Cons upper_char_ne)
  moreover have "last (upper_char c) \<in> set (upper_char c)"
    by (simp add: upper_char_ne)
  ultimately show ?thesis
    using upper_char_nospace [of c] h s by simp
qed

lemma trimmed_strip: "strip s \<noteq> [] \<Longrightarrow> trimmed (strip s)"
  by (simp add: trimmed_def strip_hd strip_last)

lemma trimmed_upper: "trimmed s \<Longrightarrow> trimmed (upper s)"
  by (simp add: trimmed_def upper_ne upper_hd upper_last)

lemma strip_trimmed: "trimmed s \<Longrightarrow> strip s = s"
  by (simp add: trimmed_def strip_id)

lemma trimmed_join:
  "ps \<noteq> [] \<Longrightarrow> list_all trimmed ps \<Longrightarrow> trimmed (join sep ps)"
proof (induction sep ps rule: join.induct)
  case (1 sep)
  then show ?case by simp
next
  case (2 sep p)
  then show ?case by simp
next
  case (3 sep p q ps)
  then have t: "trimmed (join sep (q # ps))" and p: "trimmed p" by simp_all
  from p t show ?case by (simp add: trimmed_def)
qed

section \<open>utils.py and name assembly: the claims\<close>

lemma strip_decomp:
  "\<exists>pre post. s = pre @ strip s @ post \<and> list_all isspace_char pre \<and> list_all isspace_char post"
proof -
  let ?pre = "takeWhile isspace_char s"
  let ?t = "dropWhile isspace_char s"
  let ?post = "rev (takeWhile isspace_char (rev ?t))"
  have "?t = rev (takeWhile isspace_char (rev ?t) @ dropWhile isspace_char (rev ?t))"
    by simp
  then have t: "?t = strip s @ ?post"
    by (simp only: rev_append strip_def)
  have "s = ?pre @ ?t" by simp
  then have "s = ?pre @ strip s @ ?post" using t by simp
  moreover have "list_all isspace_char ?pre"
    by (simp add: list_all_iff) (meson set_takeWhileD)
  moreover have "list_all isspace_char ?post"
    by (simp add: list_all_iff) (meson set_takeWhileD)
  ultimately show ?thesis by blast
qed

text \<open>
  Claim C6. For every input string, \<open>safe_filename_pretty\<close> replaces each of the nine
  characters of \<open>prohibidos\<close> by an underscore and each line feed and carriage return by a space, keeps every
  other character in its place, and then trims: the result is what remains of the
  replaced text once a prefix and a suffix of white space are removed, and it neither
  starts nor ends with white space.
\<close>

theorem safe_filename_pretty_spec:
  "safe_filename_pretty texto = strip (map spec_clean_char texto)
   \<and> (\<exists>pre post. map spec_clean_char texto = pre @ safe_filename_pretty texto @ post
         \<and> list_all isspace_char pre \<and> list_all isspace_char post)
   \<and> (safe_filename_pretty texto = [] \<or> trimmed (safe_filename_pretty texto))"
proof -
  have m: "replace_char CR (CHR '' '') (replace_char LF (CHR '' '')
             (map (\<lambda>c. if c \<in> set prohibidos then CHR ''_'' else c) texto))
           = map spec_clean_char texto"
    by (auto simp: replace_char_def prohibidos_def spec_clean_char_def)
  have a: "safe_filename_pretty texto = strip (map spec_clean_char texto)"
    by (simp add: safe_filename_pretty_def Let_def m)
  show ?thesis
    unfolding a using strip_decomp [of "map spec_clean_char texto"] trimmed_strip by blast
qed

theorem safe_filename_pretty_witness:
  "safe_filename_pretty ('' a<b>:c'' @ [CHR 0x22] @ ''/d'' @ [CHR 0x5C] @ ''|e?*'' @ [LF] @ ''f'' @ [CR, LF])
     = ''a_b__c__d__e__ f''"
proof -
  have "strip (map spec_clean_char ('' a<b>:c'' @ [CHR 0x22] @ ''/d'' @ [CHR 0x5C] @ ''|e?*'' @ [LF] @ ''f'' @ [CR, LF]))
        = ''a_b__c__d__e__ f''"
    by code_simp
  then show ?thesis
    using safe_filename_pretty_spec [of "'' a<b>:c'' @ [CHR 0x22] @ ''/d'' @ [CHR 0x5C] @ ''|e?*'' @ [LF] @ ''f'' @ [CR, LF]"]
    by simp
qed

lemma get_stripped_text:
  "is_text (dict_get res k) \<Longrightarrow> get_stripped res k = Inr (strip (text_of (dict_get res k)))"
  by (cases "dict_get res k") (auto simp: get_stripped_def py_or_def)

text \<open>
  Claim C5. For a person record whose name fields hold text (or are absent):
  when one of \<open>first_name\<close>, \<open>first_last_name\<close>, \<open>second_last_name\<close> is non-empty after
  trimming, \<open>dni_a_nombre_completo\<close> returns the non-empty trimmed parts in that order,
  joined by single spaces and upper-cased; when all three are empty it returns the
  trimmed \<open>full_name\<close>, which is the empty string when that field is absent.
\<close>

theorem dni_a_nombre_completo_spec:
  assumes "is_text (dict_get res ''first_name'')"
    and "is_text (dict_get res ''first_last_name'')"
    and "is_text (dict_get res ''second_last_name'')"
    and "is_text (dict_get res ''full_name'')"
  shows "dni_a_nombre_completo res =
     Inr (let nombres = strip (text_of (dict_get res ''first_name''));
              ape1 = strip (text_of (dict_get res ''first_last_name''));
              ape2 = strip (text_of (dict_get res ''second_last_name''))
          in if nombres = [] \<and> ape1 = [] \<and> ape2 = []
             then strip (text_of (dict_get res ''full_name''))
             else upper (join '' '' (filter (\<lambda>p. p \<noteq> []) [nombres, ape1, ape2])))"
proof -
  let ?n = "strip (text_of (dict_get res ''first_name''))"
  let ?a = "strip (text_of (dict_get res ''first_last_name''))"
  let ?b = "strip (text_of (dict_get res ''second_last_name''))"
  let ?ps = "filter (\<lambda>p. p \<noteq> []) [?n, ?a, ?b]"
  have tr: "\<not> (?n = [] \<and> ?a = [] \<and> ?b = []) \<Longrightarrow> strip (upper (join '' '' ?ps)) = upper (join '' '' ?ps)"
  proof -
    assume ne: "\<not> (?n = [] \<and> ?a = [] \<and> ?b = [])"
    then have "?ps \<noteq> []" by auto
    moreover have "list_all trimmed ?ps"
      using trimmed_strip [of "text_of (dict_get res ''first_name'')"]
        trimmed_strip [of "text_of (dict_get res ''first_last_name'')"]
        trimmed_strip [of "text_of (dict_get res ''second_last_name'')"]
      by auto
    ultimately have "trimmed (join '' '' ?ps)" by (rule trimmed_join)
    then show ?thesis by (intro strip_trimmed trimmed_upper)
  qed
  show ?thesis
    unfolding dni_a_nombre_completo_def
    using tr by (simp add: get_stripped_text assms Let_def)
qed

theorem dni_a_nombre_completo_witness:
  "dni_a_nombre_completo
     [(''first_name'', JStr ''ANA''), (''first_last_name'', JStr ''PEREZ''),
      (''second_last_name'', JStr ''LOPEZ'')] = Inr ''ANA PEREZ LOPEZ''
   \<and> dni_a_nombre_completo
     [(''first_name'', JStr ''''), (''first_last_name'', JNull),
      (''full_name'', JStr '' ANA PEREZ '')] = Inr ''ANA PEREZ''
   \<and> dni_a_nombre_completo
     [(''first_name'', JStr '' ana ''), (''second_last_name'', JStr (''l'' @ [CHR 0xF3] @ ''pez''))]
       = Inr (''ANA L'' @ [CHR 0xD3] @ ''PEZ'')"
proof -
  let ?r1 = "[(''first_name'', JStr ''ANA''), (''first_last_name'', JStr ''PEREZ''),
      (''second_last_name'', JStr ''LOPEZ'')]"
  let ?r2 = "[(''first_name'', JStr ''''), (''first_last_name'', JNull),
      (''full_name'', JStr '' ANA PEREZ '')]"
  let ?r3 = "[(''first_name'', JStr '' ana ''), (''second_last_name'', JStr (''l'' @ [CHR 0xF3] @ ''pez''))]"
  have h1: "is_text (dict_get ?r1 ''first_name'')" "is_text (dict_get ?r1 ''first_last_name'')"
    "is_text (dict_get ?r1 ''second_last_name'')" "is_text (dict_get ?r1 ''full_name'')"
    by (simp_all add: dict_get_def)
  have h2: "is_text (dict_get ?r2 ''first_name'')" "is_text (dict_get ?r2 ''first_last_name'')"
    "is_text (dict_get ?r2 ''second_last_name'')" "is_text (dict_get ?r2 ''full_name'')"
    by (simp_all add: dict_get_def)
  have h3: "is_text (dict_get ?r3 ''first_name'')" "is_text (dict_get ?r3 ''first_last_name'')"
    "is_text (dict_get ?r3 ''second_last_name'')" "is_text (dict_get ?r3 ''full_name'')"
    by (simp_all add: dict_get_def)
  have e1: "(let nombres = strip (text_of (dict_get ?r1 ''first_name''));
              ape1 = strip (text_of (dict_get ?r1 ''first_last_name''));
              ape2 = strip (text_of (dict_get ?r1 ''second_last_name''))
          in if nombres = [] \<and> ape1 = [] \<and> ape2 = []
             then strip (text_of (dict_get ?r1 ''full_name''))
             else upper (join '' '' (filter (\<lambda>p. p \<noteq> []) [nombres, ape1, ape2]))) = ''ANA PEREZ LOPEZ''"
    by code_simp
  have e2: "(let nombres = strip (text_of (dict_get ?r2 ''first_name''));
              ape1 = strip (text_of (dict_get ?r2 ''first_last_name''));
              ape2 = strip (text_of (dict_get ?r2 ''second_last_name''))
          in if nombres = [] \<and> ape1 = [] \<and> ape2 = []
             then strip (text_of (dict_get ?r2 ''full_name''))
             else upper (join '' '' (filter (\<lambda>p. p \<noteq> []) [nombres, ape1, ape2]))) = ''ANA PEREZ''"
    by code_simp
  have e3: "(let nombres = strip (text_of (dict_get ?r3 ''first_name''));
              ape1 = strip (text_of (dict_get ?r3 ''first_last_name''));
              ape2 = strip (text_of (dict_get ?r3 ''second_last_name''))
          in if nombres = [] \<and> ape1 = [] \<and> ape2 = []
             then strip (text_of (dict_get ?r3 ''full_name''))
             else upper (join '' '' (filter (\<lambda>p. p \<noteq> []) [nombres, ape1, ape2]))) = ''ANA L'' @ [CHR 0xD3] @ ''PEZ''"
    by code_simp
  show ?thesis
    using dni_a_nombre_completo_spec [OF h1] dni_a_nombre_completo_spec [OF h2]
      dni_a_nombre_completo_spec [OF h3]
    unfolding e1 e2 e3 by simp
qed

section \<open>The HTTP client: retries\<close>

lemma send_eq: "send rq w = (server w (sent w) rq, w\<lparr>sent := sent w @ [rq]\<rparr>)"
  by (simp add: send_def)

lemma parse_sent [simp]: "parse (w\<lparr>sent := x\<rparr>) r = parse w r"
  by (auto simp: parse_def fmt_def Let_def split: option.splits json.splits)

lemma get_token_sent [simp]: "get_token (w\<lparr>sent := x\<rparr>) = get_token w"
  by (simp add: get_token_def split: option.splits)

lemma startswith_append: "startswith (p @ s) p"
  by (induction p) auto

lemma str_in_prefix: "str_in p (p @ s)"
  by (cases "p @ s") (use startswith_append [of p s] in auto)

lemma get_json_plain_ok:
  assumes "get_token w = Inr tok"
    and "server w (sent w) \<lparr>meth = GET, url = u, params = ps, json_body = None\<rparr> = Inr resp"
    and "status_code resp < 400"
  shows "get_json u ps w
     = (parse w resp, w\<lparr>sent := sent w @ [\<lparr>meth = GET, url = u, params = ps, json_body = None\<rparr>]\<rparr>)"
  using assms by (simp add: get_json_def send_eq)

lemma get_json_plain_error:
  assumes "get_token w = Inr tok"
    and "server w (sent w) \<lparr>meth = GET, url = u, params = ps, json_body = None\<rparr> = Inr resp"
    and "400 \<le> status_code resp"
    and "status_code resp \<noteq> 403" and "status_code resp \<noteq> 406" and "status_code resp \<noteq> 415"
  shows "get_json u ps w
     = (Inl (Raised (CodartAPIError (http_msg resp))),
        w\<lparr>sent := sent w @ [\<lparr>meth = GET, url = u, params = ps, json_body = None\<rparr>]\<rparr>)"
  using assms by (simp add: get_json_def send_eq)

lemma get_json_waf:
  assumes "get_token w = Inr tok"
    and "server w (sent w) rq1 = Inr resp"
    and "status_code resp = 403 \<or> status_code resp = 406 \<or> status_code resp = 415"
    and "server w (sent w @ [rq1]) rq2 = Inr resp2"
    and "server w (sent w @ [rq1, rq2]) rq3 = Inr resp3"
    and "rq1 = \<lparr>meth = GET, url = u, params = ps, json_body = None\<rparr>"
    and "rq2 = \<lparr>meth = POST, url = u, params = None,
                json_body = Some (case ps of None \<Rightarrow> [] | Some p \<Rightarrow> p)\<rparr>"
    and "rq3 = \<lparr>meth = GET, url = u, params = None, json_body = None\<rparr>"
  shows "get_json u ps w =
     (if status_code resp2 < 400 then (parse w resp2, w\<lparr>sent := sent w @ [rq1, rq2]\<rparr>)
      else if status_code resp3 < 400 then (parse w resp3, w\<lparr>sent := sent w @ [rq1, rq2, rq3]\<rparr>)
      else (Inl (Raised (CodartAPIError
              (''Bloqueado por servidor/WAF. GET='' @ str_int (status_code resp)
                @ '' POST='' @ str_int (status_code resp2)
                @ ''. GET body: '' @ take 200 (resp_text resp)))),
            w\<lparr>sent := sent w @ [rq1, rq2, rq3]\<rparr>))"
proof -
  have 1: "server w (sent w) \<lparr>meth = GET, url = u, params = ps, json_body = None\<rparr> = Inr resp"
    using assms(2,6) by simp
  have 2: "server w (sent w @ [\<lparr>meth = GET, url = u, params = ps, json_body = None\<rparr>])
      \<lparr>meth = POST, url = u, params = None,
       json_body = Some (case ps of None \<Rightarrow> [] | Some p \<Rightarrow> p)\<rparr> = Inr resp2"
    using assms(4,6,7) by simp
  have 3: "server w (sent w @ [\<lparr>meth = GET, url = u, params = ps, json_body = None\<rparr>,
       \<lparr>meth = POST, url = u, params = None,
        json_body = Some (case ps of None \<Rightarrow> [] | Some p \<Rightarrow> p)\<rparr>])
      \<lparr>meth = GET, url = u, params = None, json_body = None\<rparr> = Inr resp3"
    using assms(5,6,7,8) by simp
  show ?thesis
    unfolding assms(6,7,8) using assms(1,3)
    by (auto simp: get_json_def send_eq 1 2 3 waf_msg_def)
qed

lemma str_int_404: "str_int 404 = ''404''"
  by code_simp

lemma http_msg_404: "status_code resp = 404 \<Longrightarrow> str_in ''HTTP 404'' (http_msg resp)"
proof -
  assume "status_code resp = 404"
  then have "http_msg resp = ''HTTP 404'' @ ('': '' @ take 300 (resp_text resp))"
    by (simp add: http_msg_def str_int_404)
  then show ?thesis by (simp only: str_in_prefix)
qed

lemma con_fallback_404:
  assumes "get_token w = Inr tok"
    and "server w (sent w) \<lparr>meth = GET, url = ua, params = None, json_body = None\<rparr> = Inr resp"
    and "status_code resp = 404"
  shows "con_fallback ua ub pb w =
     (case get_json ub (Some pb)
             (w\<lparr>sent := sent w @ [\<lparr>meth = GET, url = ua, params = None, json_body = None\<rparr>]\<rparr>) of
        (Inr data, w2) \<Rightarrow> (Inr (result_of data), w2)
      | (Inl e, w2) \<Rightarrow> (Inl e, w2))"
proof -
  have "get_json ua None w = (Inl (Raised (CodartAPIError (http_msg resp))),
        w\<lparr>sent := sent w @ [\<lparr>meth = GET, url = ua, params = None, json_body = None\<rparr>]\<rparr>)"
    using assms by (intro get_json_plain_error) simp_all
  then show ?thesis
    by (simp add: con_fallback_def http_msg_404 [OF assms(3)])
qed

section \<open>The HTTP client: requests issued and the cache\<close>

lemma grows_refl: "grows w w 0 n"
  unfolding grows_def by (rule exI [of _ "[]"]) simp

lemma grows_send: "grows w (snd (send rq w)) 1 1"
  unfolding grows_def send_def by (rule exI [of _ "[rq]"]) simp

lemma grows_trans:
  assumes "grows w w1 a b" and "grows w1 w2 c d"
  shows "grows w w2 (a + c) (b + d)"
proof -
  from assms(1) obtain rs where 1: "w1 = w\<lparr>sent := sent w @ rs\<rparr>" "a \<le> length rs" "length rs \<le> b"
    unfolding grows_def by blast
  from assms(2) obtain ss where 2: "w2 = w1\<lparr>sent := sent w1 @ ss\<rparr>" "c \<le> length ss" "length ss \<le> d"
    unfolding grows_def by blast
  have "w2 = w\<lparr>sent := sent w @ (rs @ ss)\<rparr>" using 1(1) 2(1) by simp
  moreover have "a + c \<le> length (rs @ ss)" "length (rs @ ss) \<le> b + d"
    using 1 2 by simp_all
  ultimately show ?thesis unfolding grows_def by blast
qed

lemma grows_weaken:
  assumes "grows w w' a b" and "a' \<le> a" and "b \<le> b'"
  shows "grows w w' a' b'"
proof -
  from assms(1) obtain rs where "w' = w\<lparr>sent := sent w @ rs\<rparr>" "a \<le> length rs" "length rs \<le> b"
    unfolding grows_def by blast
  then have "w' = w\<lparr>sent := sent w @ rs\<rparr> \<and> a' \<le> length rs \<and> length rs \<le> b'"
    using assms(2,3) by simp
  then show ?thesis unfolding grows_def by blast
qed

lemma grows_fields:
  assumes "grows w w' a b"
  shows "server w' = server w" "now w' = now w" "cache_dni w' = cache_dni w"
    "cache_ruc w' = cache_ruc w" "secret_token w' = secret_token w" "env_token w' = env_token w"
    "py_str w' = py_str w"
  using assms unfolding grows_def by auto


lemma grows1: "grows w (w\<lparr>sent := sent w @ [a]\<rparr>) 1 1"
  unfolding grows_def by (rule exI [of _ "[a]"]) simp

lemma grows2: "grows w (w\<lparr>sent := sent w @ [a, b]\<rparr>) 2 2"
  unfolding grows_def by (rule exI [of _ "[a, b]"]) simp

lemma grows3: "grows w (w\<lparr>sent := sent w @ [a, b, c]\<rparr>) 3 3"
  unfolding grows_def by (rule exI [of _ "[a, b, c]"]) simp

lemma get_json_grows: "grows w (snd (get_json u ps w)) 0 3"
  unfolding get_json_def send_eq
  by (auto split: sum.splits intro: grows_refl grows_weaken [OF grows1] grows_weaken [OF grows2]
        grows_weaken [OF grows3])

lemma get_json_ok_grows: "fst (get_json u ps w) = Inr data \<Longrightarrow> grows w (snd (get_json u ps w)) 1 3"
  unfolding get_json_def send_eq
  by (auto split: sum.splits if_splits intro: grows_weaken [OF grows1] grows_weaken [OF grows2]
        grows_weaken [OF grows3])


lemma con_fallback_grows: "grows w (snd (con_fallback ua ub pb w)) 0 6"
proof -
  obtain r1 w1 where g1: "get_json ua None w = (r1, w1)" by (cases "get_json ua None w")
  obtain r2 w2 where g2: "get_json ub (Some pb) w1 = (r2, w2)"
    by (cases "get_json ub (Some pb) w1")
  have a: "grows w w1 0 3" using get_json_grows [of w ua None] g1 by simp
  have b: "grows w1 w2 0 3" using get_json_grows [of w1 ub "Some pb"] g2 by simp
  have c: "grows w w2 0 6" using grows_trans [OF a b] by simp
  have a': "grows w w1 0 6" using grows_weaken [OF a] by simp
  show ?thesis
    unfolding con_fallback_def g1
    by (auto simp: g2 a' c split: sum.splits failure.splits error.splits)
qed

lemma con_fallback_ok_grows:
  assumes "fst (con_fallback ua ub pb w) = Inr v"
  shows "grows w (snd (con_fallback ua ub pb w)) 1 6"
proof -
  obtain r1 w1 where g1: "get_json ua None w = (r1, w1)" by (cases "get_json ua None w")
  obtain r2 w2 where g2: "get_json ub (Some pb) w1 = (r2, w2)"
    by (cases "get_json ub (Some pb) w1")
  have a: "grows w w1 0 3" using get_json_grows [of w ua None] g1 by simp
  have a1: "(\<exists>d. r1 = Inr d) \<longrightarrow> grows w w1 (Suc 0) 6"
  proof
    assume "\<exists>d. r1 = Inr d"
    then obtain d where "r1 = Inr d" ..
    then have "grows w w1 1 3" using get_json_ok_grows [of ua None w d] g1 by simp
    then show "grows w w1 (Suc 0) 6" by (rule grows_weaken) simp_all
  qed
  have b1: "(\<exists>d. r2 = Inr d) \<longrightarrow> grows w w2 (Suc 0) 6"
  proof
    assume "\<exists>d. r2 = Inr d"
    then obtain d where "r2 = Inr d" ..
    then have "grows w1 w2 1 3" using get_json_ok_grows [of ub "Some pb" w1 d] g2 by simp
    from grows_trans [OF a this] show "grows w w2 (Suc 0) 6" by (rule grows_weaken) simp_all
  qed
  show ?thesis
    using assms a1 b1 unfolding con_fallback_def g1
    by (auto simp: g2 split: sum.splits failure.splits error.splits if_splits)
qed

lemma consultar_dni_body_ok_grows:
  "fst (consultar_dni_body k w) = Inr v \<Longrightarrow> grows w (snd (consultar_dni_body k w)) 1 6"
  unfolding consultar_dni_body_def
  by (auto split: sum.splits dest: con_fallback_ok_grows)

lemma consultar_ruc_body_ok_grows:
  "fst (consultar_ruc_body k w) = Inr v \<Longrightarrow> grows w (snd (consultar_ruc_body k w)) 1 6"
  unfolding consultar_ruc_body_def
  by (auto split: sum.splits dest: con_fallback_ok_grows)

lemma consultar_dni_body_grows: "grows w (snd (consultar_dni_body k w)) 0 6"
  unfolding consultar_dni_body_def
  by (auto split: sum.splits intro: con_fallback_grows grows_refl)

lemma consultar_ruc_body_grows: "grows w (snd (consultar_ruc_body k w)) 0 6"
  unfolding consultar_ruc_body_def
  by (auto split: sum.splits intro: con_fallback_grows grows_refl)

lemma grows_sent: "grows w w' a b \<Longrightarrow> \<exists>rs. sent w' = sent w @ rs \<and> a \<le> length rs \<and> length rs \<le> b"
  unfolding grows_def by auto

lemma cache_hit_fresh: "d < ttl \<Longrightarrow> cache_lookup ((k, v, t) # c) (t + d) k = Some v"
  by (simp add: cache_lookup_def)

lemma dni_cache_window:
  assumes miss: "cache_lookup (cache_dni w) (now w) k = None"
    and ok: "consultar_dni k w = (Inr v, w1)"
    and d: "d < ttl"
  shows "(\<exists>rs. sent w1 = sent w @ rs \<and> 1 \<le> length rs \<and> length rs \<le> 6)
     \<and> consultar_dni k (w1\<lparr>now := now w1 + d\<rparr>) = (Inr v, w1\<lparr>now := now w1 + d\<rparr>)"
proof -
  obtain r w' where b: "consultar_dni_body k w = (r, w')" by (cases "consultar_dni_body k w")
  from ok miss b have r: "r = Inr v" and w1: "w1 = w'\<lparr>cache_dni := (k, v, now w') # cache_dni w'\<rparr>"
    by (auto simp: consultar_dni_def split: sum.splits)
  have g: "grows w w' 1 6" using consultar_dni_body_ok_grows [of k w v] b r by simp
  from grows_sent [OF g] have 1: "\<exists>rs. sent w1 = sent w @ rs \<and> 1 \<le> length rs \<and> length rs \<le> 6"
    by (simp add: w1)
  have 2: "consultar_dni k (w1\<lparr>now := now w1 + d\<rparr>) = (Inr v, w1\<lparr>now := now w1 + d\<rparr>)"
    by (simp add: consultar_dni_def w1 cache_hit_fresh [OF d])
  from 1 2 show ?thesis by simp
qed

lemma ruc_cache_window:
  assumes miss: "cache_lookup (cache_ruc w) (now w) k = None"
    and ok: "consultar_ruc k w = (Inr v, w1)"
    and d: "d < ttl"
  shows "(\<exists>rs. sent w1 = sent w @ rs \<and> 1 \<le> length rs \<and> length rs \<le> 6)
     \<and> consultar_ruc k (w1\<lparr>now := now w1 + d\<rparr>) = (Inr v, w1\<lparr>now := now w1 + d\<rparr>)"
proof -
  obtain r w' where b: "consultar_ruc_body k w = (r, w')" by (cases "consultar_ruc_body k w")
  from ok miss b have r: "r = Inr v" and w1: "w1 = w'\<lparr>cache_ruc := (k, v, now w') # cache_ruc w'\<rparr>"
    by (auto simp: consultar_ruc_def split: sum.splits)
  have g: "grows w w' 1 6" using consultar_ruc_body_ok_grows [of k w v] b r by simp
  from grows_sent [OF g] have 1: "\<exists>rs. sent w1 = sent w @ rs \<and> 1 \<le> length rs \<and> length rs \<le> 6"
    by (simp add: w1)
  have 2: "consultar_ruc k (w1\<lparr>now := now w1 + d\<rparr>) = (Inr v, w1\<lparr>now := now w1 + d\<rparr>)"
    by (simp add: consultar_ruc_def w1 cache_hit_fresh [OF d])
  from 1 2 show ?thesis by simp
qed

lemma dni_raise_caches_nothing:
  assumes "consultar_dni k w = (Inl e, w2)"
  shows "cache_dni w2 = cache_dni w \<and> cache_ruc w2 = cache_ruc w"
proof -
  obtain r w' where b: "consultar_dni_body k w = (r, w')" by (cases "consultar_dni_body k w")
  have g: "grows w w' 0 6" using consultar_dni_body_grows [of w k] b by simp
  from assms b have "w2 = w'"
    by (auto simp: consultar_dni_def split: option.splits sum.splits)
  then show ?thesis using grows_fields [OF g] by simp
qed

lemma ruc_raise_caches_nothing:
  assumes "consultar_ruc k w = (Inl e, w2)"
  shows "cache_dni w2 = cache_dni w \<and> cache_ruc w2 = cache_ruc w"
proof -
  obtain r w' where b: "consultar_ruc_body k w = (r, w')" by (cases "consultar_ruc_body k w")
  have g: "grows w w' 0 6" using consultar_ruc_body_grows [of w k] b by simp
  from assms b have "w2 = w'"
    by (auto simp: consultar_ruc_def split: option.splits sum.splits)
  then show ?thesis using grows_fields [OF g] by simp
qed

text \<open>
  Claim C4, as amended. A call of \<open>consultar_dni\<close> (or \<open>consultar_ruc\<close>) that misses the
  cache and returns a value has issued between one and six outbound requests, and every
  call of the same operation with the same identifier string less than \<open>ttl\<close> seconds
  later returns that value without issuing a request. A call that raises stores
  nothing in either cache. The window is 24 hours.
\<close>

theorem lookup_cache_window:
  "(cache_lookup (cache_dni w) (now w) k = None \<and> consultar_dni k w = (Inr v, w1) \<and> d < ttl \<longrightarrow>
      (\<exists>rs. sent w1 = sent w @ rs \<and> 1 \<le> length rs \<and> length rs \<le> 6)
      \<and> consultar_dni k (w1\<lparr>now := now w1 + d\<rparr>) = (Inr v, w1\<lparr>now := now w1 + d\<rparr>))
   \<and> (cache_lookup (cache_ruc w) (now w) k = None \<and> consultar_ruc k w = (Inr v, w1) \<and> d < ttl \<longrightarrow>
      (\<exists>rs. sent w1 = sent w @ rs \<and> 1 \<le> length rs \<and> length rs \<le> 6)
      \<and> consultar_ruc k (w1\<lparr>now := now w1 + d\<rparr>) = (Inr v, w1\<lparr>now := now w1 + d\<rparr>))
   \<and> (consultar_dni k w = (Inl e, w2) \<longrightarrow> cache_dni w2 = cache_dni w \<and> cache_ruc w2 = cache_ruc w)
   \<and> (consultar_ruc k w = (Inl e, w2) \<longrightarrow> cache_dni w2 = cache_dni w \<and> cache_ruc w2 = cache_ruc w)
   \<and> ttl = 86400"
  using dni_cache_window [of w k v w1 d] ruc_cache_window [of w k v w1 d]
    dni_raise_caches_nothing [of k w e w2] ruc_raise_caches_nothing [of k w e w2]
  by (simp add: ttl_def)

section \<open>The HTTP client: runs on the example worlds\<close>

lemma world_of_sel [simp]:
  "sent (world_of srv) = []" "server (world_of srv) = srv" "now (world_of srv) = 0"
  "cache_dni (world_of srv) = []" "cache_ruc (world_of srv) = []"
  by (simp_all add: world_of_def)

lemma strip_token: "strip ''token'' = ''token''"
  by code_simp

lemma world_of_token [simp]: "get_token (world_of srv) = Inr ''token''"
  by (simp add: get_token_def world_of_def strip_token)

lemma validar_dni_12345678 [simp]: "validar_dni ''12345678'' = Inr ''12345678''"
  by code_simp

lemma url_b_not_a [simp]: "BASE_URL @ ''/reniec/dni/dni'' \<noteq> url_dni_a"
  by (simp add: url_dni_a_def)

lemma url_a_12345678 [simp]: "BASE_URL @ ''/reniec/dni/12345678'' = url_dni_a"
  by (simp add: url_dni_a_def)

lemma str_int_codes: "str_int 406 = ''406''" "str_int 415 = ''415''" "str_int 403 = ''403''"
  by code_simp+

lemma waf_text_no_http:
  "\<not> str_in ''HTTP 404'' ''Bloqueado por servidor/WAF. GET=406 POST=406. GET body: ''"
  "\<not> str_in ''HTTP 406'' ''Bloqueado por servidor/WAF. GET=406 POST=406. GET body: ''"
  by code_simp+

lemma get_json_406_run:
  "get_json url_dni_a None (world_of (primary_fails 406)) =
     (Inl (Raised (CodartAPIError ''Bloqueado por servidor/WAF. GET=406 POST=406. GET body: '')),
      (world_of (primary_fails 406))\<lparr>sent :=
         [\<lparr>meth = GET, url = url_dni_a, params = None, json_body = None\<rparr>,
          \<lparr>meth = POST, url = url_dni_a, params = None, json_body = Some []\<rparr>,
          \<lparr>meth = GET, url = url_dni_a, params = None, json_body = None\<rparr>]\<rparr>)"
proof -
  let ?w = "world_of (primary_fails 406)"
  let ?r = "status_response 406 []"
  have "get_json url_dni_a None ?w =
     (if status_code ?r < 400 then (parse ?w ?r, ?w\<lparr>sent := sent ?w @
          [\<lparr>meth = GET, url = url_dni_a, params = None, json_body = None\<rparr>,
           \<lparr>meth = POST, url = url_dni_a, params = None,
            json_body = Some (case None of None \<Rightarrow> [] | Some p \<Rightarrow> p)\<rparr>]\<rparr>)
      else if status_code ?r < 400 then (parse ?w ?r, ?w\<lparr>sent := sent ?w @
          [\<lparr>meth = GET, url = url_dni_a, params = None, json_body = None\<rparr>,
           \<lparr>meth = POST, url = url_dni_a, params = None,
            json_body = Some (case None of None \<Rightarrow> [] | Some p \<Rightarrow> p)\<rparr>,
           \<lparr>meth = GET, url = url_dni_a, params = None, json_body = None\<rparr>]\<rparr>)
      else (Inl (Raised (CodartAPIError
              (''Bloqueado por servidor/WAF. GET='' @ str_int (status_code ?r)
                @ '' POST='' @ str_int (status_code ?r)
                @ ''. GET body: '' @ take 200 (resp_text ?r)))),
            ?w\<lparr>sent := sent ?w @
          [\<lparr>meth = GET, url = url_dni_a, params = None, json_body = None\<rparr>,
           \<lparr>meth = POST, url = url_dni_a, params = None,
            json_body = Some (case None of None \<Rightarrow> [] | Some p \<Rightarrow> p)\<rparr>,
           \<lparr>meth = GET, url = url_dni_a, params = None, json_body = None\<rparr>]\<rparr>))"
    by (rule get_json_waf [where tok = "''token''"])
       (simp_all add: primary_fails_def status_response_def)
  then show ?thesis
    by (simp add: status_response_def str_int_codes)
qed

text \<open>
  Claim C1 at its failing input. The primary route answers 406 to every attempt and the
  secondary route would answer 200 with a success envelope. \<open>consultar_dni\<close> raises the
  error of the blocked retry sequence, whose text holds \<open>GET=406\<close> and not \<open>HTTP 406\<close>, and
  never requests the secondary route: all three requests go to the primary URL.
\<close>

theorem consultar_dni_primary_406:
  "fst (consultar_dni ''12345678'' (world_of (primary_fails 406)))
     = Inl (Raised (CodartAPIError ''Bloqueado por servidor/WAF. GET=406 POST=406. GET body: ''))
   \<and> map url (sent (snd (consultar_dni ''12345678'' (world_of (primary_fails 406)))))
     = [url_dni_a, url_dni_a, url_dni_a]
   \<and> primary_fails 406 [] \<lparr>meth = GET, url = BASE_URL @ ''/reniec/dni/dni'',
        params = Some [(''dni'', ''12345678'')], json_body = None\<rparr> = Inr ok_response"
proof -
  have "con_fallback url_dni_a (BASE_URL @ ''/reniec/dni/dni'') [(''dni'', ''12345678'')]
          (world_of (primary_fails 406)) =
     (Inl (Raised (CodartAPIError ''Bloqueado por servidor/WAF. GET=406 POST=406. GET body: '')),
      (world_of (primary_fails 406))\<lparr>sent :=
         [\<lparr>meth = GET, url = url_dni_a, params = None, json_body = None\<rparr>,
          \<lparr>meth = POST, url = url_dni_a, params = None, json_body = Some []\<rparr>,
          \<lparr>meth = GET, url = url_dni_a, params = None, json_body = None\<rparr>]\<rparr>)"
    by (simp add: con_fallback_def get_json_406_run waf_text_no_http)
  then show ?thesis
    by (simp add: consultar_dni_def consultar_dni_body_def cache_lookup_def primary_fails_def)
qed

lemma parse_ok_response: "parse w ok_response
    = Inr [(''success'', JBool True), (''result'', JObj [(''first_name'', JStr ''ANA'')])]"
  by (simp add: parse_def ok_response_def dict_get_def)

lemma result_of_ok:
  "result_of [(''success'', JBool True), (''result'', JObj [(''first_name'', JStr ''ANA'')])]
    = JObj [(''first_name'', JStr ''ANA'')]"
  by (simp add: result_of_def py_or_def)

lemma run_404:
  "consultar_dni ''12345678'' (world_of (primary_fails 404)) =
     (Inr (JObj [(''first_name'', JStr ''ANA'')]),
      (world_of (primary_fails 404))\<lparr>sent :=
         [\<lparr>meth = GET, url = url_dni_a, params = None, json_body = None\<rparr>,
          \<lparr>meth = GET, url = BASE_URL @ ''/reniec/dni/dni'',
           params = Some [(''dni'', ''12345678'')], json_body = None\<rparr>],
        cache_dni := [(''12345678'', JObj [(''first_name'', JStr ''ANA'')], 0)]\<rparr>)"
proof -
  let ?w = "world_of (primary_fails 404)"
  let ?rqa = "\<lparr>meth = GET, url = url_dni_a, params = None, json_body = None\<rparr>"
  let ?rqb = "\<lparr>meth = GET, url = BASE_URL @ ''/reniec/dni/dni'',
           params = Some [(''dni'', ''12345678'')], json_body = None\<rparr>"
  have g: "get_json (BASE_URL @ ''/reniec/dni/dni'') (Some [(''dni'', ''12345678'')])
             (?w\<lparr>sent := sent ?w @ [?rqa]\<rparr>)
           = (parse (?w\<lparr>sent := sent ?w @ [?rqa]\<rparr>) ok_response,
              ?w\<lparr>sent := sent ?w @ [?rqa]\<rparr>\<lparr>sent := sent (?w\<lparr>sent := sent ?w @ [?rqa]\<rparr>) @ [?rqb]\<rparr>)"
    by (rule get_json_plain_ok [where tok = "''token''"])
       (simp_all add: primary_fails_def ok_response_def)
  have c: "con_fallback url_dni_a (BASE_URL @ ''/reniec/dni/dni'') [(''dni'', ''12345678'')] ?w =
     (case get_json (BASE_URL @ ''/reniec/dni/dni'') (Some [(''dni'', ''12345678'')])
             (?w\<lparr>sent := sent ?w @ [?rqa]\<rparr>) of
        (Inr data, w2) \<Rightarrow> (Inr (result_of data), w2)
      | (Inl e, w2) \<Rightarrow> (Inl e, w2))"
    by (rule con_fallback_404 [where tok = "''token''" and resp = "status_response 404 []"])
       (simp_all add: primary_fails_def status_response_def)
  have g': "get_json (BASE_URL @ ''/reniec/dni/dni'') (Some [(''dni'', ''12345678'')])
             (?w\<lparr>sent := [?rqa]\<rparr>)
           = (Inr [(''success'', JBool True), (''result'', JObj [(''first_name'', JStr ''ANA'')])],
              ?w\<lparr>sent := [?rqa, ?rqb]\<rparr>)"
    using g by (simp add: parse_ok_response)
  have c': "con_fallback url_dni_a (BASE_URL @ ''/reniec/dni/dni'') [(''dni'', ''12345678'')] ?w
     = (Inr (JObj [(''first_name'', JStr ''ANA'')]), ?w\<lparr>sent := [?rqa, ?rqb]\<rparr>)"
    unfolding c by (simp add: g' result_of_ok)
  show ?thesis
    by (simp add: consultar_dni_def consultar_dni_body_def cache_lookup_def c')
qed

text \<open>
  Two calls with one identifier at the same instant, the primary route answering 404:
  both return the record, and two outbound requests were issued, not one.
\<close>

theorem two_calls_two_requests:
  "fst (consultar_dni ''12345678'' (world_of (primary_fails 404)))
     = Inr (JObj [(''first_name'', JStr ''ANA'')])
   \<and> fst (consultar_dni ''12345678'' (snd (consultar_dni ''12345678'' (world_of (primary_fails 404)))))
     = Inr (JObj [(''first_name'', JStr ''ANA'')])
   \<and> length (sent (snd (consultar_dni ''12345678''
        (snd (consultar_dni ''12345678'' (world_of (primary_fails 404))))))) = 2"
  unfolding run_404 snd_conv fst_conv
  by (simp add: consultar_dni_def cache_lookup_def ttl_def)

theorem lookup_cache_window_witness:
  "fst (consultar_dni ''12345678''
         ((snd (consultar_dni ''12345678'' (world_of (primary_fails 404))))
            \<lparr>now := now (snd (consultar_dni ''12345678'' (world_of (primary_fails 404)))) + 3600\<rparr>))
     = Inr (JObj [(''first_name'', JStr ''ANA'')])
   \<and> sent (snd (consultar_dni ''12345678''
         ((snd (consultar_dni ''12345678'' (world_of (primary_fails 404))))
            \<lparr>now := now (snd (consultar_dni ''12345678'' (world_of (primary_fails 404)))) + 3600\<rparr>)))
     = sent (snd (consultar_dni ''12345678'' (world_of (primary_fails 404))))"
proof -
  let ?w = "world_of (primary_fails 404)"
  let ?v = "JObj [(''first_name'', JStr ''ANA'')]"
  let ?w1 = "snd (consultar_dni ''12345678'' ?w)"
  have h1: "cache_lookup (cache_dni ?w) (now ?w) ''12345678'' = None"
    by (simp add: cache_lookup_def)
  have h2: "consultar_dni ''12345678'' ?w = (Inr ?v, ?w1)"
    by (simp add: run_404)
  have h3: "(3600::nat) < ttl"
    by (simp add: ttl_def)
  from lookup_cache_window [of ?w "''12345678''" ?v ?w1 3600] h1 h2 h3
  have "consultar_dni ''12345678'' (?w1\<lparr>now := now ?w1 + 3600\<rparr>)
      = (Inr ?v, ?w1\<lparr>now := now ?w1 + 3600\<rparr>)"
    by blast
  then show ?thesis by simp
qed

text \<open>
  Claim C2, as amended. When the first GET is answered 403, 406 or 415, \<open>_get_json\<close> sends
  one POST to the same URL with the parameters as JSON body (the empty object when it
  has none); if that is answered with a status of 400 or more, it sends one GET without
  parameters; if that fails too, it raises \<open>CodartAPIError\<close> with the statuses of the
  first GET and of the POST and the first 200 characters of the body of the first GET.
\<close>

theorem get_json_waf_retries:
  assumes "get_token w = Inr tok"
    and "server w (sent w) rq1 = Inr resp"
    and "status_code resp = 403 \<or> status_code resp = 406 \<or> status_code resp = 415"
    and "server w (sent w @ [rq1]) rq2 = Inr resp2"
    and "server w (sent w @ [rq1, rq2]) rq3 = Inr resp3"
    and "rq1 = \<lparr>meth = GET, url = u, params = ps, json_body = None\<rparr>"
    and "rq2 = \<lparr>meth = POST, url = u, params = None,
                json_body = Some (case ps of None \<Rightarrow> [] | Some p \<Rightarrow> p)\<rparr>"
    and "rq3 = \<lparr>meth = GET, url = u, params = None, json_body = None\<rparr>"
  shows "get_json u ps w =
     (if status_code resp2 < 400 then (parse w resp2, w\<lparr>sent := sent w @ [rq1, rq2]\<rparr>)
      else if status_code resp3 < 400 then (parse w resp3, w\<lparr>sent := sent w @ [rq1, rq2, rq3]\<rparr>)
      else (Inl (Raised (CodartAPIError
              (''Bloqueado por servidor/WAF. GET='' @ str_int (status_code resp)
                @ '' POST='' @ str_int (status_code resp2)
                @ ''. GET body: '' @ take 200 (resp_text resp)))),
            w\<lparr>sent := sent w @ [rq1, rq2, rq3]\<rparr>))"
  using assms by (rule get_json_waf)

lemma waf_server_run:
  "get_json ''u'' (Some [(''dni'', ''1'')]) (world_of waf_server) =
     (Inl (Raised (CodartAPIError ''Bloqueado por servidor/WAF. GET=406 POST=403. GET body: first'')),
      (world_of waf_server)\<lparr>sent :=
         [\<lparr>meth = GET, url = ''u'', params = Some [(''dni'', ''1'')], json_body = None\<rparr>,
          \<lparr>meth = POST, url = ''u'', params = None, json_body = Some [(''dni'', ''1'')]\<rparr>,
          \<lparr>meth = GET, url = ''u'', params = None, json_body = None\<rparr>]\<rparr>)"
proof -
  let ?w = "world_of waf_server"
  let ?ps = "Some [(''dni'', ''1'')]"
  let ?rq1 = "\<lparr>meth = GET, url = ''u'', params = ?ps, json_body = None\<rparr>"
  let ?rq2 = "\<lparr>meth = POST, url = ''u'', params = None,
                json_body = Some (case ?ps of None \<Rightarrow> [] | Some p \<Rightarrow> p)\<rparr>"
  let ?rq3 = "\<lparr>meth = GET, url = ''u'', params = None, json_body = None\<rparr>"
  have "get_json ''u'' ?ps ?w =
     (if status_code (status_response 403 ''second'') < 400
      then (parse ?w (status_response 403 ''second''), ?w\<lparr>sent := sent ?w @ [?rq1, ?rq2]\<rparr>)
      else if status_code (status_response 500 ''third'') < 400
      then (parse ?w (status_response 500 ''third''), ?w\<lparr>sent := sent ?w @ [?rq1, ?rq2, ?rq3]\<rparr>)
      else (Inl (Raised (CodartAPIError
              (''Bloqueado por servidor/WAF. GET='' @ str_int (status_code (status_response 406 ''first''))
                @ '' POST='' @ str_int (status_code (status_response 403 ''second''))
                @ ''. GET body: '' @ take 200 (resp_text (status_response 406 ''first''))))),
            ?w\<lparr>sent := sent ?w @ [?rq1, ?rq2, ?rq3]\<rparr>))"
    by (rule get_json_waf [where tok = "''token''"])
       (simp_all add: waf_server_def status_response_def)
  then show ?thesis
    by (simp add: status_response_def str_int_codes)
qed

lemma waf_text_lacks:
  "\<not> str_in ''500'' ''Bloqueado por servidor/WAF. GET=406 POST=403. GET body: first''"
  "\<not> str_in ''second'' ''Bloqueado por servidor/WAF. GET=406 POST=403. GET body: first''"
  "\<not> str_in ''third'' ''Bloqueado por servidor/WAF. GET=406 POST=403. GET body: first''"
  by code_simp+

text \<open>
  A run in which all three attempts fail: the text of the raised error holds neither
  the status of the third attempt nor the body of the second or third.
\<close>

theorem waf_message_omits_attempts:
  "fst (get_json ''u'' (Some [(''dni'', ''1'')]) (world_of waf_server))
     = Inl (Raised (CodartAPIError ''Bloqueado por servidor/WAF. GET=406 POST=403. GET body: first''))
   \<and> waf_server
        [\<lparr>meth = GET, url = ''u'', params = Some [(''dni'', ''1'')], json_body = None\<rparr>,
         \<lparr>meth = POST, url = ''u'', params = None, json_body = Some [(''dni'', ''1'')]\<rparr>]
        \<lparr>meth = GET, url = ''u'', params = None, json_body = None\<rparr>
      = Inr (status_response 500 ''third'')
   \<and> waf_server
        [\<lparr>meth = GET, url = ''u'', params = Some [(''dni'', ''1'')], json_body = None\<rparr>]
        \<lparr>meth = POST, url = ''u'', params = None, json_body = Some [(''dni'', ''1'')]\<rparr>
      = Inr (status_response 403 ''second'')
   \<and> \<not> str_in ''500'' ''Bloqueado por servidor/WAF. GET=406 POST=403. GET body: first''
   \<and> \<not> str_in ''second'' ''Bloqueado por servidor/WAF. GET=406 POST=403. GET body: first''
   \<and> \<not> str_in ''third'' ''Bloqueado por servidor/WAF. GET=406 POST=403. GET body: first''"
  by (simp add: waf_server_run waf_text_lacks waf_server_def)

theorem get_json_waf_retries_witness:
  "get_json url_dni_a None (world_of (primary_fails 415)) =
     (Inl (Raised (CodartAPIError ''Bloqueado por servidor/WAF. GET=415 POST=415. GET body: '')),
      (world_of (primary_fails 415))\<lparr>sent :=
         [\<lparr>meth = GET, url = url_dni_a, params = None, json_body = None\<rparr>,
          \<lparr>meth = POST, url = url_dni_a, params = None, json_body = Some []\<rparr>,
          \<lparr>meth = GET, url = url_dni_a, params = None, json_body = None\<rparr>]\<rparr>)"
proof -
  let ?w = "world_of (primary_fails 415)"
  let ?r = "status_response 415 []"
  let ?rq1 = "\<lparr>meth = GET, url = url_dni_a, params = None, json_body = None\<rparr>"
  let ?rq2 = "\<lparr>meth = POST, url = url_dni_a, params = None,
            json_body = Some (case None of None \<Rightarrow> [] | Some p \<Rightarrow> p)\<rparr>"
  have h1: "get_token ?w = Inr ''token''" by simp
  have h2: "server ?w (sent ?w) ?rq1 = Inr ?r" by (simp add: primary_fails_def)
  have h3: "status_code ?r = 403 \<or> status_code ?r = 406 \<or> status_code ?r = 415"
    by (simp add: status_response_def)
  have h4: "server ?w (sent ?w @ [?rq1]) ?rq2 = Inr ?r" by (simp add: primary_fails_def)
  have h5: "server ?w (sent ?w @ [?rq1, ?rq2]) ?rq1 = Inr ?r" by (simp add: primary_fails_def)
  from get_json_waf_retries [OF h1 h2 h3 h4 h5 refl refl refl]
  show ?thesis
    by (simp add: status_response_def str_int_codes)
qed



section \<open>Coordinates: the claim\<close>

lemma str_in_single: "str_in [c] s = (c \<in> set s)"
  by (induction s) auto

lemma split_comma_unique:
  assumes "raw = a @ CHR '','' # b" and "CHR '','' \<notin> set a"
  shows "split_comma raw = (a, b)"
proof -
  have "takeWhile (\<lambda>c. c \<noteq> CHR '','') (a @ CHR '','' # b) = a"
    using assms(2) by (induction a) auto
  moreover have "dropWhile (\<lambda>c. c \<noteq> CHR '','') (a @ CHR '','' # b) = CHR '','' # b"
    using assms(2) by (induction a) auto
  ultimately show ?thesis by (simp add: split_comma_def assms(1))
qed

lemma split_comma_decomp:
  assumes "CHR '','' \<in> set raw"
  shows "raw = fst (split_comma raw) @ CHR '','' # snd (split_comma raw)
     \<and> CHR '','' \<notin> set (fst (split_comma raw))"
proof -
  let ?d = "dropWhile (\<lambda>c. c \<noteq> CHR '','') raw"
  have ne: "?d \<noteq> []" using assms by (simp add: dropWhile_eq_Nil_conv) 
  then have "hd ?d = CHR '',''" using hd_dropWhile [of "\<lambda>c. c \<noteq> CHR '',''" raw] by simp
  then have d: "?d = CHR '','' # tl ?d" using ne by (cases ?d) auto
  have "raw = takeWhile (\<lambda>c. c \<noteq> CHR '','') raw @ ?d" by simp
  then have "raw = takeWhile (\<lambda>c. c \<noteq> CHR '','') raw @ CHR '','' # tl ?d" using d by simp
  moreover have "CHR '','' \<notin> set (takeWhile (\<lambda>c. c \<noteq> CHR '','') raw)"
    by (auto dest: set_takeWhileD)
  ultimately show ?thesis by (simp add: split_comma_def)
qed

lemma range4:
  "(float_le (Finite l1) x \<and> float_le x (Finite h1)
      \<and> float_le (Finite l2) y \<and> float_le y (Finite h2))
   = (\<exists>lat lon. x = Finite lat \<and> y = Finite lon
        \<and> l1 \<le> lat \<and> lat \<le> h1 \<and> l2 \<le> lon \<and> lon \<le> h2)"
  by (cases x; cases y; simp)

text \<open>
  Claim C7. \<open>_coordenadas_validas\<close> accepts exactly the strings that, once trimmed, are
  a latitude text without comma, a comma, and a longitude text, where \<open>float\<close> parses both
  trimmed texts to finite numbers with the latitude in [-90, 90] and the longitude in
  [-180, 180]. Every other string is rejected: an empty one, one without comma, one
  with a part that \<open>float\<close> does not parse, one with a value out of range, infinite or NaN.
\<close>

theorem coordenadas_validas_spec:
  "coordenadas_validas float val =
     (\<exists>lat_txt lon_txt lat lon.
         strip val = lat_txt @ '','' @ lon_txt \<and> CHR '','' \<notin> set lat_txt
         \<and> float (strip lat_txt) = Some (Finite lat) \<and> float (strip lon_txt) = Some (Finite lon)
         \<and> - 90 \<le> lat \<and> lat \<le> 90 \<and> - 180 \<le> lon \<and> lon \<le> 180)"
proof (cases "CHR '','' \<in> set (strip val)")
  case False
  have "\<not> coordenadas_validas float val"
    using False by (simp add: coordenadas_validas_def Let_def str_in_single)
  moreover have "\<not> (\<exists>lat_txt lon_txt. strip val = lat_txt @ '','' @ lon_txt)"
    using False by auto
  ultimately show ?thesis by blast
next
  case True
  obtain a b where ab: "split_comma (strip val) = (a, b)" by (cases "split_comma (strip val)")
  from split_comma_decomp [OF True] ab
  have dec: "strip val = a @ CHR '','' # b" and na: "CHR '','' \<notin> set a" by simp_all
  have ne: "strip val \<noteq> []" using True by auto
  have lhs: "coordenadas_validas float val =
      (\<exists>lat lon. float (strip a) = Some (Finite lat) \<and> float (strip b) = Some (Finite lon)
         \<and> - 90 \<le> lat \<and> lat \<le> 90 \<and> - 180 \<le> lon \<and> lon \<le> 180)"
  proof -
    have "coordenadas_validas float val =
       (case float (strip a) of None \<Rightarrow> False
        | Some lat \<Rightarrow>
            (case float (strip b) of None \<Rightarrow> False
             | Some lon \<Rightarrow>
                 float_le (Finite (- 90)) lat \<and> float_le lat (Finite 90)
                 \<and> float_le (Finite (- 180)) lon \<and> float_le lon (Finite 180)))"
      using True ne by (simp add: coordenadas_validas_def Let_def str_in_single ab)
    then show ?thesis
      by (cases "float (strip a)"; cases "float (strip b)") (auto simp: range4)
  qed
  have rhs: "(\<exists>lat_txt lon_txt lat lon.
         strip val = lat_txt @ '','' @ lon_txt \<and> CHR '','' \<notin> set lat_txt
         \<and> float (strip lat_txt) = Some (Finite lat) \<and> float (strip lon_txt) = Some (Finite lon)
         \<and> - 90 \<le> lat \<and> lat \<le> 90 \<and> - 180 \<le> lon \<and> lon \<le> 180) =
      (\<exists>lat lon. float (strip a) = Some (Finite lat) \<and> float (strip b) = Some (Finite lon)
         \<and> - 90 \<le> lat \<and> lat \<le> 90 \<and> - 180 \<le> lon \<and> lon \<le> 180)"
  proof
    assume "\<exists>lat_txt lon_txt lat lon.
         strip val = lat_txt @ '','' @ lon_txt \<and> CHR '','' \<notin> set lat_txt
         \<and> float (strip lat_txt) = Some (Finite lat) \<and> float (strip lon_txt) = Some (Finite lon)
         \<and> - 90 \<le> lat \<and> lat \<le> 90 \<and> - 180 \<le> lon \<and> lon \<le> 180"
    then obtain x y lat lon where xy: "strip val = x @ CHR '','' # y" "CHR '','' \<notin> set x"
      and f: "float (strip x) = Some (Finite lat)" "float (strip y) = Some (Finite lon)"
        "- 90 \<le> lat" "lat \<le> 90" "- 180 \<le> lon" "lon \<le> 180"
      by auto
    from split_comma_unique [OF xy] ab have "x = a" "y = b" by simp_all
    with f show "\<exists>lat lon. float (strip a) = Some (Finite lat) \<and> float (strip b) = Some (Finite lon)
         \<and> - 90 \<le> lat \<and> lat \<le> 90 \<and> - 180 \<le> lon \<and> lon \<le> 180"
      by blast
  next
    assume "\<exists>lat lon. float (strip a) = Some (Finite lat) \<and> float (strip b) = Some (Finite lon)
         \<and> - 90 \<le> lat \<and> lat \<le> 90 \<and> - 180 \<le> lon \<and> lon \<le> 180"
    then show "\<exists>lat_txt lon_txt lat lon.
         strip val = lat_txt @ '','' @ lon_txt \<and> CHR '','' \<notin> set lat_txt
         \<and> float (strip lat_txt) = Some (Finite lat) \<and> float (strip lon_txt) = Some (Finite lon)
         \<and> - 90 \<le> lat \<and> lat \<le> 90 \<and> - 180 \<le> lon \<and> lon \<le> 180"
      using dec na by (intro exI [of _ a] exI [of _ b]) simp
  qed
  show ?thesis unfolding lhs rhs ..
qed

theorem coordenadas_validas_witness:
  "coordenadas_validas float_sample '' -12.05, -77.03 ''
   \<and> \<not> coordenadas_validas float_sample []
   \<and> \<not> coordenadas_validas float_sample ''-12.05 -77.03''"
proof -
  have s: "strip '' -12.05, -77.03 '' = ''-12.05'' @ '','' @ '' -77.03''"
    and s1: "strip ''-12.05'' = ''-12.05''" and s2: "strip '' -77.03'' = ''-77.03''"
    by code_simp+
  have 1: "coordenadas_validas float_sample '' -12.05, -77.03 ''"
    unfolding coordenadas_validas_spec
    apply (rule exI [of _ "''-12.05''"])
    apply (rule exI [of _ "'' -77.03''"])
    apply (rule exI [of _ "- 12.05"])
    apply (rule exI [of _ "- 77.03"])
    apply (simp only: s s1 s2)
    apply (simp add: float_sample_def)
    done
  have 2: "\<not> coordenadas_validas float_sample []"
    unfolding coordenadas_validas_spec by simp
  have t: "strip ''-12.05 -77.03'' = ''-12.05 -77.03''" by code_simp
  have 3: "\<not> coordenadas_validas float_sample ''-12.05 -77.03''"
    unfolding coordenadas_validas_spec t
  proof
    assume "\<exists>lat_txt lon_txt lat lon.
         ''-12.05 -77.03'' = lat_txt @ '','' @ lon_txt \<and> CHR '','' \<notin> set lat_txt
         \<and> float_sample (strip lat_txt) = Some (Finite lat)
         \<and> float_sample (strip lon_txt) = Some (Finite lon)
         \<and> - 90 \<le> lat \<and> lat \<le> 90 \<and> - 180 \<le> lon \<and> lon \<le> 180"
    then obtain x y where "''-12.05 -77.03'' = x @ '','' @ y" by blast
    then have "CHR '','' \<in> set ''-12.05 -77.03''"
      by (metis append_Cons in_set_conv_decomp)
    then show False by simp
  qed
  from 1 2 3 show ?thesis by simp
qed

section \<open>The spreadsheet store: reading and writing\<close>












text \<open>Whatever the frame, a write leaves the tab well formed.\<close>

lemma escribir_df_leaves_wf:
  "\<exists>g. escribir_df n cs df st n = Some g \<and> wf_tab cs g"
  by (simp add: escribir_df_def select_columns_def wf_tab_def list_all_iff)









section \<open>The spreadsheet store: updates by key\<close>




























section \<open>The spreadsheet store: appends\<close>












end
